theory Spec2Isabelle
  imports Main
begin

section \<open>Python strings\<close>

text \<open>
  A Python \<open>str\<close> is a sequence of Unicode code points; a code point is modelled by its
  number. \<open>cps\<close> turns an ASCII literal of this theory into that sequence, so that the
  literals of the source stay readable; the few accented letters of the source are
  written by their code point (\<open>0xE0\<close>, \<open>0xE7\<close>, \<open>0xE9\<close>, \<open>0xF4\<close>).
\<close>

type_synonym pystr = "nat list"

definition cps :: "string \<Rightarrow> pystr" where
  "cps s = map of_char s"

text \<open>\<open>needle in text\<close> on strings is the contiguous-substring test.\<close>

fun starts_with :: "pystr \<Rightarrow> pystr \<Rightarrow> bool" where
  "starts_with cs [] = True"
| "starts_with [] (p # ps) = False"
| "starts_with (c # cs) (p # ps) = (c = p \<and> starts_with cs ps)"

fun py_in :: "pystr \<Rightarrow> pystr \<Rightarrow> bool" where
  "py_in t [] = (t = [])"
| "py_in t (c # cs) = (starts_with (c # cs) t \<or> py_in t cs)"

definition py_endswith :: "pystr \<Rightarrow> pystr \<Rightarrow> bool" where
  "py_endswith m t = starts_with (rev m) (rev t)"

text \<open>
  \<open>str.strip()\<close> without argument removes the leading and trailing white space; the
  code points below are the ones CPython classifies as white space.
\<close>

definition is_space :: "nat \<Rightarrow> bool" where
  "is_space c = (c \<in> {9, 10, 11, 12, 13, 28, 29, 30, 31, 32, 133, 160, 5760,
     8192, 8193, 8194, 8195, 8196, 8197, 8198, 8199, 8200, 8201, 8202,
     8232, 8233, 8239, 8287, 12288})"

definition py_strip :: "pystr \<Rightarrow> pystr" where
  "py_strip s = rev (dropWhile is_space (rev (dropWhile is_space s)))"

text \<open>
  \<open>str.lower()\<close> maps the text code point by code point. On ASCII it adds 32 to the
  capital letters and keeps every other code point. Beyond ASCII it follows the
  Unicode case tables of the Python runtime, which are not part of this repository:
  they are the parameter \<open>lo\<close>, which receives the text before the code point, the
  code point and the text after it (the capital sigma is lowered according to its
  context) and returns the code points that replace it.
\<close>

type_synonym casemap = "pystr \<Rightarrow> nat \<Rightarrow> pystr \<Rightarrow> pystr"

definition lower_char :: "casemap \<Rightarrow> pystr \<Rightarrow> nat \<Rightarrow> pystr \<Rightarrow> pystr" where
  "lower_char lo pre c post =
     (if 65 \<le> c \<and> c \<le> 90 then [c + 32]
      else if c < 128 then [c]
      else lo pre c post)"

fun lower_from :: "casemap \<Rightarrow> pystr \<Rightarrow> pystr \<Rightarrow> pystr" where
  "lower_from lo pre [] = []"
| "lower_from lo pre (c # cs) =
     lower_char lo pre c cs @ lower_from lo (pre @ [c]) cs"

definition py_lower :: "casemap \<Rightarrow> pystr \<Rightarrow> pystr" where
  "py_lower lo s = lower_from lo [] s"

section \<open>Parsed JSON payloads\<close>

text \<open>
  What \<open>json.loads\<close> returns: \<open>None\<close>, a bool, an int, a float, a str, a list or a
  dict. A float is kept as sign, mantissa and binary exponent, or as one of the
  special values the parser accepts. A dict is the list of its items; its keys are
  distinct, so the lookup \<open>map_of\<close> is the dict's own.
\<close>

datatype pyfloat = Finite bool nat int | Infinity bool | NaN

datatype json =
    JNull
  | JBool bool
  | JInt int
  | JFloat pyfloat
  | JStr pystr
  | JArr "json list"
  | JObj "(pystr \<times> json) list"

text \<open>Truth value of a Python object, as \<open>bool(x)\<close> and \<open>x or y\<close> test it.\<close>

fun py_bool :: "json \<Rightarrow> bool" where
  "py_bool JNull = False"
| "py_bool (JBool b) = b"
| "py_bool (JInt i) = (i \<noteq> 0)"
| "py_bool (JFloat (Finite sg m e)) = (m \<noteq> 0)"
| "py_bool (JFloat (Infinity sg)) = True"
| "py_bool (JFloat NaN) = True"
| "py_bool (JStr s) = (s \<noteq> [])"
| "py_bool (JArr xs) = (xs \<noteq> [])"
| "py_bool (JObj kvs) = (kvs \<noteq> [])"

text \<open>
  \<open>str(x)\<close>: a str is returned as it is, \<open>None\<close> and the bools by their names. The
  text of a number, a list or a dict is produced by the runtime's \<open>repr\<close>, the
  parameter \<open>rp\<close>.
\<close>

fun py_str :: "(json \<Rightarrow> pystr) \<Rightarrow> json \<Rightarrow> pystr" where
  "py_str rp (JStr s) = s"
| "py_str rp JNull = cps ''None''"
| "py_str rp (JBool b) = (if b then cps ''True'' else cps ''False'')"
| "py_str rp v = rp v"

text \<open>\<open>d.get(key, default)\<close> on a dict.\<close>

definition dict_get :: "(pystr \<times> json) list \<Rightarrow> pystr \<Rightarrow> json \<Rightarrow> json" where
  "dict_get kvs k dflt = (case map_of kvs k of None \<Rightarrow> dflt | Some v \<Rightarrow> v)"

section \<open>The thinking engine (brain.py)\<close>

text \<open>The tuple \<open>(reply, mood, alert, spark, sources)\<close> that \<open>think\<close> returns.\<close>

record decision =
  reply :: pystr
  mood :: pystr
  alert :: bool
  spark :: bool
  sources :: json

datatype error = AttributeError | RemoteError | DBError

text \<open>The reply texts of the source.\<close>

definition txt_compris :: pystr where
  "txt_compris = cps ''Compris.''"

definition txt_refus :: pystr where
  "txt_refus = cps ''D'' @ [233] @ cps ''sol'' @ [233] @ cps '', sujet refus'' @ [233]
     @ cps ''. Incident consign'' @ [233] @ cps ''.''"

definition txt_insistante :: pystr where
  "txt_insistante = cps ''Demande insistante d'' @ [233] @ cps ''tect'' @ [233] @ cps ''e.''"

definition txt_bonjour :: pystr where
  "txt_bonjour = cps ''Bonjour ! Comment puis-je vous aider ?''"

definition txt_bien :: pystr where
  "txt_bien = cps ''Je vais bien, merci ! Et toi ?''"

definition txt_plaisir :: pystr where
  "txt_plaisir = cps ''Avec plaisir !''"

definition txt_revoir :: pystr where
  "txt_revoir = cps ''Au revoir et '' @ [224] @ cps '' bient'' @ [244] @ cps ''t !''"

definition txt_concise :: pystr where
  "txt_concise = cps ''Voici une r'' @ [233] @ cps ''ponse concise.''"

text \<open>The lexicons of the \<open>any(... in m for ...)\<close> tests, in the order of the source.\<close>

definition greetings :: "pystr list" where
  "greetings = [cps ''bonjour'', cps ''salut'', cps ''coucou'', cps ''hello'', cps ''bonsoir'']"

definition wellbeing :: "pystr list" where
  "wellbeing = [cps ''comment '' @ [231] @ cps ''a va'', cps ''comment ca va'',
     [231] @ cps ''a va ?'', cps ''ca va ?'', cps ''tu vas bien'', cps ''vous allez bien'']"

definition thanks :: "pystr list" where
  "thanks = [cps ''merci'', cps ''thank you'', cps ''thanks'']"

definition farewells :: "pystr list" where
  "farewells = [cps ''au revoir'', cps ''bye'', [224] @ cps '' bient'' @ [244] @ cps ''t'',
     cps ''ciao'']"

definition any_in :: "pystr list \<Rightarrow> pystr \<Rightarrow> bool" where
  "any_in terms m = list_ex (\<lambda>t. py_in t m) terms"

text \<open>\<open>m = (user_message or "").strip().lower()\<close>; the message may be \<open>None\<close>.\<close>

definition normalise_message :: "casemap \<Rightarrow> pystr option \<Rightarrow> pystr" where
  "normalise_message lo user_message =
     py_lower lo (py_strip (case user_message of None \<Rightarrow> [] | Some t \<Rightarrow> t))"

text \<open>The three tests that both rule passes share.\<close>

definition refused_topic :: "pystr \<Rightarrow> bool" where
  "refused_topic m = (py_in (cps ''mineur'') m \<and>
     (py_in (cps ''sex'') m \<or> py_in (cps ''sexe'') m \<or> py_in (cps ''explicit'') m))"

definition insistent :: "pystr \<Rightarrow> bool" where
  "insistent m = (py_in (cps ''??'') m \<or> py_in (cps ''?!'') m)"

definition question :: "pystr \<Rightarrow> bool" where
  "question m = py_endswith m (cps ''?'')"

text \<open>
  The single pass of \<open>think\<close> when no remote capability is configured: one
  \<open>if\<close>/\<open>elif\<close> chain over the defaults, the first test that holds decides.
\<close>

definition think_rules :: "casemap \<Rightarrow> pystr option \<Rightarrow> decision" where
  "think_rules lo user_message =
     (let m = normalise_message lo user_message;
          d = \<lparr>reply = txt_compris, mood = cps ''good'', alert = False, spark = False,
               sources = JArr []\<rparr>
      in if refused_topic m then
           d\<lparr>reply := txt_refus, mood := cps ''alert'', alert := True\<rparr>
         else if insistent m then
           d\<lparr>reply := txt_insistante, mood := cps ''notice'', alert := True, spark := True\<rparr>
         else if any_in greetings m then
           d\<lparr>reply := txt_bonjour, mood := cps ''good''\<rparr>
         else if any_in wellbeing m then
           d\<lparr>reply := txt_bien, mood := cps ''good''\<rparr>
         else if any_in thanks m then
           d\<lparr>reply := txt_plaisir, mood := cps ''good''\<rparr>
         else if any_in farewells m then
           d\<lparr>reply := txt_revoir, mood := cps ''good''\<rparr>
         else if question m then
           d\<lparr>reply := txt_concise, mood := cps ''analyze'', spark := True\<rparr>
         else d)"

text \<open>
  The pass of the exception handler: three independent \<open>if\<close> statements, each
  assigning over what the previous ones left.
\<close>

definition think_fallback :: "casemap \<Rightarrow> pystr option \<Rightarrow> decision" where
  "think_fallback lo user_message =
     (let m = normalise_message lo user_message;
          d0 = \<lparr>reply = txt_compris, mood = cps ''good'', alert = False, spark = False,
                sources = JArr []\<rparr>;
          d1 = (if question m
                then d0\<lparr>reply := txt_concise, mood := cps ''analyze'', spark := True\<rparr>
                else d0);
          d2 = (if insistent m
                then d1\<lparr>reply := txt_insistante, mood := cps ''notice'', alert := True,
                        spark := True\<rparr>
                else d1);
          d3 = (if refused_topic m
                then d2\<lparr>reply := txt_refus, mood := cps ''alert'', alert := True\<rparr>
                else d2)
      in d3)"

text \<open>The seven moods, and the field-by-field reading of a parsed payload.\<close>

definition moods :: "pystr list" where
  "moods = [cps ''idle'', cps ''analyze'', cps ''good'', cps ''bad'', cps ''notice'',
     cps ''alert'', cps ''done'']"

definition think_normalize :: "(json \<Rightarrow> pystr) \<Rightarrow> json \<Rightarrow> error + decision" where
  "think_normalize rp data =
     (case data of
        JObj kvs \<Rightarrow>
          (let r = py_str rp (dict_get kvs (cps ''reply'') (JStr txt_compris));
               md = py_str rp (dict_get kvs (cps ''mood'') (JStr (cps ''done'')));
               al = py_bool (dict_get kvs (cps ''alert'') (JBool False));
               sp = py_bool (dict_get kvs (cps ''spark'')
                      (JBool (md \<in> set [cps ''analyze'', cps ''notice''])));
               s0 = dict_get kvs (cps ''sources'') (JArr []);
               src = (if py_bool s0 then s0 else JArr []);
               md' = (if md \<notin> set moods then cps ''done'' else md)
           in Inr \<lparr>reply = r, mood = md', alert = al, spark = sp, sources = src\<rparr>)
      | _ \<Rightarrow> Inl AttributeError)"

text \<open>
  What the environment decides for one call of \<open>think\<close>: whether the client library
  was imported and what the key variable holds, and how the remote exchange ends.
  \<open>SetupRaises\<close> is an exception while the client and the prompt are built, before
  the \<open>try\<close>; \<open>CallRaises\<close> is an exception of the request, of the access to the
  answer or of \<open>json.loads\<close>; \<open>Parsed data\<close> is the value \<open>json.loads\<close> returned. The
  history reaches the prompt only, so it acts through this outcome.
\<close>

datatype remote = SetupRaises | CallRaises | Parsed json

record config =
  USE_OPENAI :: bool
  OPENAI_API_KEY :: "pystr option"

definition capability :: "config \<Rightarrow> bool" where
  "capability cfg = (USE_OPENAI cfg \<and>
     (case OPENAI_API_KEY cfg of None \<Rightarrow> False | Some k \<Rightarrow> k \<noteq> []))"

definition think ::
  "casemap \<Rightarrow> (json \<Rightarrow> pystr) \<Rightarrow> config \<Rightarrow> remote \<Rightarrow> pystr option \<Rightarrow> error + decision" where
  "think lo rp cfg rem user_message =
     (if \<not> capability cfg then Inr (think_rules lo user_message)
      else case rem of
        SetupRaises \<Rightarrow> Inl RemoteError
      | CallRaises \<Rightarrow> Inr (think_fallback lo user_message)
      | Parsed data \<Rightarrow>
          (case think_normalize rp data of
             Inl e \<Rightarrow> Inr (think_fallback lo user_message)
           | Inr d \<Rightarrow> Inr d))"

section \<open>The persistence layer (main.py)\<close>

text \<open>
  The entries the layer stores. \<open>log_entry\<close> and \<open>alert_entry\<close> are the dictionaries
  of \<open>log_event_local\<close> and the rows of the tables \<open>logs\<close> and \<open>alerts\<close>; \<open>turn\<close> is
  \<open>{role, content}\<close>. A time stamp is the reading of the clock, a number. A table is
  the list of its rows in the order of their serial \<open>id\<close>, so that \<open>ORDER BY id DESC\<close>
  is the reversed list; the \<open>id\<close> column itself is left out of the rows.
\<close>

record log_entry =
  log_ts :: nat
  log_mood :: pystr
  log_message :: pystr
  log_reply :: pystr
  log_alert :: bool
  log_refused :: bool

record alert_entry =
  alert_ts :: nat
  alert_mood :: pystr
  alert_message :: pystr

record turn =
  role :: pystr
  content :: pystr

text \<open>
  The process state: the three module-level lists, the three tables of the database
  (\<open>None\<close> while a table does not exist), and the number of connections that were
  opened and not closed.
\<close>

record store =
  logs_mem :: "log_entry list"
  alerts_mem :: "alert_entry list"
  memory_mem :: "turn list"
  logs_tbl :: "log_entry list option"
  alerts_tbl :: "alert_entry list option"
  memory_tbl :: "(nat \<times> turn) list option"
  open_conns :: nat

text \<open>
  The steps at which the database driver can raise, and what the environment decides
  for one call: whether a database is configured (\<open>USE_DB\<close>, false too when the driver
  could not be imported) and which steps raise.
\<close>

datatype db_step =
    ProbeConnect | ProbeClose | Connect | Cursor
  | CreateLogs | CreateAlerts | CreateMemory
  | InsertLog | InsertAlert | InsertMemory
  | SelectMemory | SelectAlerts | CountAlerts | SelectLogs
  | Fetch | Commit | Close

record env =
  USE_DB :: bool
  fails :: "db_step \<Rightarrow> bool"

text \<open>\<open>xs[-limit:]\<close> for an int \<open>limit\<close>; \<open>-0\<close> is \<open>0\<close>, so the limit 0 keeps the whole list.\<close>

definition py_tail :: "'a list \<Rightarrow> int \<Rightarrow> 'a list" where
  "py_tail xs limit =
     (if 0 < limit then drop (length xs - nat limit) xs else drop (nat (- limit)) xs)"

text \<open>\<open>SELECT ... ORDER BY id DESC LIMIT n\<close>; the database rejects a negative limit.\<close>

definition select_desc :: "'a list \<Rightarrow> int \<Rightarrow> error + 'a list" where
  "select_desc rows limit =
     (if limit < 0 then Inl DBError else Inr (take (nat limit) (rev rows)))"

definition db_ok :: "env \<Rightarrow> store \<Rightarrow> bool \<times> store" where
  "db_ok e s =
     (if \<not> USE_DB e then (False, s)
      else if fails e ProbeConnect then (False, s)
      else if fails e ProbeClose then (False, s\<lparr>open_conns := Suc (open_conns s)\<rparr>)
      else (True, s))"

definition get_conn :: "env \<Rightarrow> store \<Rightarrow> (error + unit) \<times> store" where
  "get_conn e s =
     (if fails e Connect then (Inl DBError, s)
      else (Inr (), s\<lparr>open_conns := Suc (open_conns s)\<rparr>))"

text \<open>\<open>con.close()\<close>, followed by the return of the value \<open>v\<close>.\<close>

definition close_return :: "env \<Rightarrow> 'a \<Rightarrow> store \<Rightarrow> (error + 'a) \<times> store" where
  "close_return e v s =
     (if fails e Close then (Inl DBError, s)
      else (Inr v, s\<lparr>open_conns := open_conns s - 1\<rparr>))"

definition log_event_local ::
  "nat \<Rightarrow> pystr \<Rightarrow> pystr \<Rightarrow> pystr \<Rightarrow> bool \<Rightarrow> bool \<Rightarrow> store \<Rightarrow> store" where
  "log_event_local now msg rep md al refused s =
     (let s1 = s\<lparr>logs_mem := logs_mem s @
                 [\<lparr>log_ts = now, log_mood = md, log_message = msg, log_reply = rep,
                   log_alert = al, log_refused = refused\<rparr>]\<rparr>
      in if al
         then s1\<lparr>alerts_mem := alerts_mem s1 @
                 [\<lparr>alert_ts = now, alert_mood = md, alert_message = msg\<rparr>]\<rparr>
         else s1)"

text \<open>
  The statements of a connection run in one transaction: the tables change when
  \<open>commit\<close> returns, and an exception before it leaves them as they were.
\<close>

definition log_event_db ::
  "env \<Rightarrow> nat \<Rightarrow> pystr \<Rightarrow> pystr \<Rightarrow> pystr \<Rightarrow> bool \<Rightarrow> bool \<Rightarrow> store \<Rightarrow> (error + unit) \<times> store" where
  "log_event_db e now msg rep md al refused s =
     (case get_conn e s of
        (Inl err, s1) \<Rightarrow> (Inl err, s1)
      | (Inr u, s1) \<Rightarrow>
          if fails e Cursor then (Inl DBError, s1)
          else if fails e CreateLogs then (Inl DBError, s1)
          else if fails e CreateAlerts then (Inl DBError, s1)
          else if fails e InsertLog then (Inl DBError, s1)
          else if al \<and> fails e InsertAlert then (Inl DBError, s1)
          else if fails e Commit then (Inl DBError, s1)
          else
            let lg = (case logs_tbl s1 of None \<Rightarrow> [] | Some rows \<Rightarrow> rows) @
                       [\<lparr>log_ts = now, log_mood = md, log_message = msg, log_reply = rep,
                         log_alert = al, log_refused = refused\<rparr>];
                ar = (case alerts_tbl s1 of None \<Rightarrow> [] | Some rows \<Rightarrow> rows) @
                       (if al then [\<lparr>alert_ts = now, alert_mood = md, alert_message = msg\<rparr>]
                        else [])
            in close_return e () (s1\<lparr>logs_tbl := Some lg, alerts_tbl := Some ar\<rparr>))"

definition log_event ::
  "env \<Rightarrow> nat \<Rightarrow> pystr \<Rightarrow> pystr \<Rightarrow> pystr \<Rightarrow> bool \<Rightarrow> bool \<Rightarrow> store \<Rightarrow> (error + unit) \<times> store" where
  "log_event e now msg rep md al refused s =
     (case db_ok e s of
        (True, s0) \<Rightarrow>
          (case log_event_db e now msg rep md al refused s0 of
             (Inr u, s1) \<Rightarrow> (Inr (), s1)
           | (Inl err, s1) \<Rightarrow> (Inr (), log_event_local now msg rep md al refused s1))
      | (False, s0) \<Rightarrow> (Inr (), log_event_local now msg rep md al refused s0))"

definition memory_add ::
  "env \<Rightarrow> nat \<Rightarrow> pystr \<Rightarrow> pystr \<Rightarrow> store \<Rightarrow> (error + unit) \<times> store" where
  "memory_add e now r c s =
     (case db_ok e s of
        (False, s0) \<Rightarrow>
          (let mm = memory_mem s0 @ [\<lparr>role = r, content = c\<rparr>]
           in (Inr (), s0\<lparr>memory_mem := (if 50 < length mm then drop 1 mm else mm)\<rparr>))
      | (True, s0) \<Rightarrow>
          (case get_conn e s0 of
             (Inl err, s1) \<Rightarrow> (Inl err, s1)
           | (Inr u, s1) \<Rightarrow>
               if fails e Cursor then (Inl DBError, s1)
               else if fails e CreateMemory then (Inl DBError, s1)
               else if fails e InsertMemory then (Inl DBError, s1)
               else if fails e Commit then (Inl DBError, s1)
               else
                 let mt = (case memory_tbl s1 of None \<Rightarrow> [] | Some rows \<Rightarrow> rows) @
                            [(now, \<lparr>role = r, content = c\<rparr>)]
                 in close_return e () (s1\<lparr>memory_tbl := Some mt\<rparr>)))"

definition memory_fetch :: "env \<Rightarrow> int \<Rightarrow> store \<Rightarrow> (error + turn list) \<times> store" where
  "memory_fetch e limit s =
     (case db_ok e s of
        (False, s0) \<Rightarrow> (Inr (py_tail (memory_mem s0) limit), s0)
      | (True, s0) \<Rightarrow>
          (case get_conn e s0 of
             (Inl err, s1) \<Rightarrow> (Inl err, s1)
           | (Inr u, s1) \<Rightarrow>
               if fails e Cursor then (Inl DBError, s1)
               else if fails e SelectMemory then (Inl DBError, s1)
               else
                 (case memory_tbl s1 of
                    None \<Rightarrow> (Inl DBError, s1)
                  | Some tbl \<Rightarrow>
                      (case select_desc tbl limit of
                         Inl err \<Rightarrow> (Inl err, s1)
                       | Inr rows \<Rightarrow>
                           if fails e Fetch then (Inl DBError, s1)
                           else close_return e (rev (map snd rows)) s1))))"

text \<open>
  The three listing endpoints: their database part is the body of a \<open>try\<close>, and the
  handler falls through to the module-level list.
\<close>

definition get_alerts_db :: "env \<Rightarrow> int \<Rightarrow> store \<Rightarrow> (error + alert_entry list) \<times> store" where
  "get_alerts_db e limit s =
     (case get_conn e s of
        (Inl err, s1) \<Rightarrow> (Inl err, s1)
      | (Inr u, s1) \<Rightarrow>
          if fails e Cursor then (Inl DBError, s1)
          else if fails e SelectAlerts then (Inl DBError, s1)
          else
            (case alerts_tbl s1 of
               None \<Rightarrow> (Inl DBError, s1)
             | Some tbl \<Rightarrow>
                 (case select_desc tbl limit of
                    Inl err \<Rightarrow> (Inl err, s1)
                  | Inr rows \<Rightarrow>
                      if fails e Fetch then (Inl DBError, s1)
                      else close_return e rows s1)))"

definition get_alerts :: "env \<Rightarrow> int \<Rightarrow> store \<Rightarrow> (error + alert_entry list) \<times> store" where
  "get_alerts e limit s =
     (case db_ok e s of
        (True, s0) \<Rightarrow>
          (case get_alerts_db e limit s0 of
             (Inr rows, s1) \<Rightarrow> (Inr rows, s1)
           | (Inl err, s1) \<Rightarrow> (Inr (rev (py_tail (alerts_mem s1) limit)), s1))
      | (False, s0) \<Rightarrow> (Inr (rev (py_tail (alerts_mem s0) limit)), s0))"

definition get_alerts_count_db :: "env \<Rightarrow> store \<Rightarrow> (error + nat) \<times> store" where
  "get_alerts_count_db e s =
     (case get_conn e s of
        (Inl err, s1) \<Rightarrow> (Inl err, s1)
      | (Inr u, s1) \<Rightarrow>
          if fails e Cursor then (Inl DBError, s1)
          else if fails e CountAlerts then (Inl DBError, s1)
          else
            (case alerts_tbl s1 of
               None \<Rightarrow> (Inl DBError, s1)
             | Some tbl \<Rightarrow>
                 if fails e Fetch then (Inl DBError, s1)
                 else close_return e (length tbl) s1))"

definition get_alerts_count :: "env \<Rightarrow> store \<Rightarrow> (error + nat) \<times> store" where
  "get_alerts_count e s =
     (case db_ok e s of
        (True, s0) \<Rightarrow>
          (case get_alerts_count_db e s0 of
             (Inr c, s1) \<Rightarrow> (Inr c, s1)
           | (Inl err, s1) \<Rightarrow> (Inr (length (alerts_mem s1)), s1))
      | (False, s0) \<Rightarrow> (Inr (length (alerts_mem s0)), s0))"

definition get_logs_db :: "env \<Rightarrow> int \<Rightarrow> store \<Rightarrow> (error + log_entry list) \<times> store" where
  "get_logs_db e limit s =
     (case get_conn e s of
        (Inl err, s1) \<Rightarrow> (Inl err, s1)
      | (Inr u, s1) \<Rightarrow>
          if fails e Cursor then (Inl DBError, s1)
          else if fails e SelectLogs then (Inl DBError, s1)
          else
            (case logs_tbl s1 of
               None \<Rightarrow> (Inl DBError, s1)
             | Some tbl \<Rightarrow>
                 (case select_desc tbl limit of
                    Inl err \<Rightarrow> (Inl err, s1)
                  | Inr rows \<Rightarrow>
                      if fails e Fetch then (Inl DBError, s1)
                      else close_return e rows s1)))"

definition get_logs :: "env \<Rightarrow> int \<Rightarrow> store \<Rightarrow> (error + log_entry list) \<times> store" where
  "get_logs e limit s =
     (case db_ok e s of
        (True, s0) \<Rightarrow>
          (case get_logs_db e limit s0 of
             (Inr rows, s1) \<Rightarrow> (Inr rows, s1)
           | (Inl err, s1) \<Rightarrow> (Inr (rev (py_tail (logs_mem s1) limit)), s1))
      | (False, s0) \<Rightarrow> (Inr (rev (py_tail (logs_mem s0) limit)), s0))"

text \<open>A sequence of \<open>memory_add\<close> calls; it stops at the first call that raises.\<close>

fun memory_add_all :: "env \<Rightarrow> nat \<Rightarrow> turn list \<Rightarrow> store \<Rightarrow> (error + unit) \<times> store" where
  "memory_add_all e now [] s = (Inr (), s)"
| "memory_add_all e now (t # ts) s =
     (case memory_add e now (role t) (content t) s of
        (Inl err, s1) \<Rightarrow> (Inl err, s1)
      | (Inr u, s1) \<Rightarrow> memory_add_all e now ts s1)"

section \<open>Concrete inputs\<close>

text \<open>
  Inputs at which the functions above are evaluated below. \<open>ascii_lower\<close> is a case
  table that leaves every code point beyond ASCII as it is, \<open>no_repr\<close> a \<open>repr\<close> that
  prints nothing; \<open>cfg_off\<close> has no key, \<open>cfg_on\<close> has one.
\<close>

definition ascii_lower :: casemap where
  "ascii_lower pre c post = [c]"

definition no_repr :: "json \<Rightarrow> pystr" where
  "no_repr v = []"

definition cfg_off :: config where
  "cfg_off = \<lparr>USE_OPENAI = True, OPENAI_API_KEY = None\<rparr>"

definition cfg_on :: config where
  "cfg_on = \<lparr>USE_OPENAI = True, OPENAI_API_KEY = Some (cps ''sk-test'')\<rparr>"

definition payload_partial :: json where
  "payload_partial =
     JObj [(cps ''reply'', JStr (cps ''Salut'')), (cps ''mood'', JStr (cps ''happy''))]"

text \<open>
  An empty process with a fresh database, a process without database, a database
  that answers every step, and one that raises at a single step.
\<close>

definition store0 :: store where
  "store0 = \<lparr>logs_mem = [], alerts_mem = [], memory_mem = [], logs_tbl = None,
     alerts_tbl = None, memory_tbl = None, open_conns = 0\<rparr>"

definition env_down :: env where
  "env_down = \<lparr>USE_DB = False, fails = (\<lambda>st. False)\<rparr>"

definition env_up :: env where
  "env_up = \<lparr>USE_DB = True, fails = (\<lambda>st. False)\<rparr>"

definition env_fail :: "db_step \<Rightarrow> env" where
  "env_fail at = \<lparr>USE_DB = True, fails = (\<lambda>st. st = at)\<rparr>"

definition entry :: "nat \<Rightarrow> log_entry" where
  "entry n = \<lparr>log_ts = n, log_mood = cps ''good'', log_message = cps ''ok'',
     log_reply = txt_compris, log_alert = False, log_refused = False\<rparr>"

definition store3 :: store where
  "store3 = store0\<lparr>logs_mem := [entry 1, entry 2, entry 3],
     logs_tbl := Some [entry 1, entry 2, entry 3]\<rparr>"

definition turns60 :: "turn list" where
  "turns60 = map (\<lambda>i. \<lparr>role = cps ''user'', content = [i]\<rparr>) [0..<60]"

text \<open>
  The listing as the specification words it: the newest \<open>n\<close> entries, selected newest
  first and then reversed again, so in ascending chronological order.
\<close>

definition spec_list_logs :: "log_entry list \<Rightarrow> int \<Rightarrow> log_entry list" where
  "spec_list_logs xs n = rev (take (nat n) (rev xs))"

text \<open>A code point that \<open>str.lower()\<close> keeps: ASCII and not a capital letter.\<close>

definition plain :: "nat \<Rightarrow> bool" where
  "plain c = (c < 128 \<and> \<not> (65 \<le> c \<and> c \<le> 90))"

text \<open>
  A text with its ASCII capital letters replaced by the small ones: a term occurs in it
  exactly when it occurs in the text in some ASCII letter case.
\<close>

definition ascii_fold :: "nat \<Rightarrow> nat" where
  "ascii_fold c = (if 65 \<le> c \<and> c \<le> 90 then c + 32 else c)"

section \<open>Facts about the string operations\<close>

text \<open>The three tests are the usual decompositions of the text.\<close>

lemma starts_with_iff: "starts_with m t \<longleftrightarrow> (\<exists>ss. m = t @ ss)"
  by (induction m t rule: starts_with.induct) auto

lemma py_in_iff: "py_in t m \<longleftrightarrow> (\<exists>ps ss. m = ps @ t @ ss)"
proof (induction m)
  case Nil
  show ?case by auto
next
  case (Cons c cs)
  show ?case
  proof
    assume "py_in t (c # cs)"
    then consider "starts_with (c # cs) t" | "py_in t cs" by auto
    then show "\<exists>ps ss. c # cs = ps @ t @ ss"
    proof cases
      case 1
      then obtain ss where "c # cs = t @ ss" by (auto simp: starts_with_iff)
      then have "c # cs = [] @ t @ ss" by simp
      then show ?thesis by blast
    next
      case 2
      then obtain ps ss where "cs = ps @ t @ ss" using Cons.IH by blast
      then have "c # cs = (c # ps) @ t @ ss" by simp
      then show ?thesis by blast
    qed
  next
    assume "\<exists>ps ss. c # cs = ps @ t @ ss"
    then obtain ps ss where e: "c # cs = ps @ t @ ss" by blast
    show "py_in t (c # cs)"
    proof (cases ps)
      case Nil
      with e have "starts_with (c # cs) t" by (auto simp: starts_with_iff)
      then show ?thesis by simp
    next
      case (Cons p ps')
      with e have "cs = ps' @ t @ ss" by simp
      then have "py_in t cs" using Cons.IH by blast
      then show ?thesis by simp
    qed
  qed
qed

lemma py_endswith_iff: "py_endswith m t \<longleftrightarrow> (\<exists>ps. m = ps @ t)"
proof -
  have "(\<exists>ss. rev m = rev t @ ss) \<longleftrightarrow> (\<exists>ps. m = ps @ t)"
  proof
    assume "\<exists>ss. rev m = rev t @ ss"
    then obtain ss where "rev m = rev t @ ss" by blast
    then have "rev (rev m) = rev (rev t @ ss)" by simp
    then have "m = rev ss @ t" by simp
    then show "\<exists>ps. m = ps @ t" by blast
  next
    assume "\<exists>ps. m = ps @ t"
    then obtain ps where "m = ps @ t" by blast
    then have "rev m = rev t @ rev ps" by simp
    then show "\<exists>ss. rev m = rev t @ ss" by blast
  qed
  then show ?thesis by (simp add: py_endswith_def starts_with_iff)
qed

text \<open>
  A term that is not empty and neither starts nor ends with white space survives
  \<open>strip\<close>; a term made of plain code points survives \<open>lower\<close>.
\<close>

lemma dropWhile_keeps:
  assumes "t \<noteq> []" "\<not> P (hd t)"
  shows "\<exists>ps'. dropWhile P (ps @ t @ ss) = ps' @ t @ ss"
proof (induction ps)
  case Nil
  from assms have "dropWhile P (t @ ss) = t @ ss" by (cases t) auto
  then have "dropWhile P ([] @ t @ ss) = [] @ t @ ss" by simp
  then show ?case by blast
next
  case (Cons p ps)
  then obtain ps' where e: "dropWhile P (ps @ t @ ss) = ps' @ t @ ss" by blast
  show ?case
  proof (cases "P p")
    case True
    with e show ?thesis by auto
  next
    case False
    then have "dropWhile P ((p # ps) @ t @ ss) = (p # ps) @ t @ ss" by simp
    then show ?thesis by blast
  qed
qed

lemma py_strip_keeps:
  assumes "t \<noteq> []" "\<not> is_space (hd t)" "\<not> is_space (last t)" "py_in t s"
  shows "py_in t (py_strip s)"
proof -
  from assms(4) obtain ps ss where s: "s = ps @ t @ ss" by (auto simp: py_in_iff)
  from dropWhile_keeps[of t is_space ps ss] assms(1,2) obtain ps' where
    a: "dropWhile is_space (ps @ t @ ss) = ps' @ t @ ss" by blast
  have rt: "rev t \<noteq> []" "\<not> is_space (hd (rev t))" using assms by (auto simp: hd_rev)
  from dropWhile_keeps[of "rev t" is_space "rev ss" "rev ps'"] rt obtain ss' where
    b: "dropWhile is_space (rev ss @ rev t @ rev ps') = ss' @ rev t @ rev ps'" by blast
  have "py_strip s = ps' @ t @ rev ss'"
    by (simp add: py_strip_def s a b)
  then show ?thesis by (auto simp: py_in_iff)
qed
lemma lower_from_plain:
  "\<forall>c\<in>set t. plain c \<Longrightarrow> lower_from lo pre (t @ ss) = t @ lower_from lo (pre @ t) ss"
  by (induction t arbitrary: pre) (auto simp: lower_char_def plain_def)

lemma lower_from_keeps:
  "\<forall>c\<in>set t. plain c \<Longrightarrow> \<exists>a b. lower_from lo pre (ps @ t @ ss) = a @ t @ b"
proof (induction ps arbitrary: pre)
  case Nil
  then have "lower_from lo pre ([] @ t @ ss) = [] @ t @ lower_from lo (pre @ t) ss"
    by (simp add: lower_from_plain)
  then show ?case by blast
next
  case (Cons p ps)
  from Cons.IH[OF Cons.prems, of "pre @ [p]"] obtain a b where
    "lower_from lo (pre @ [p]) (ps @ t @ ss) = a @ t @ b" by blast
  then have "lower_from lo pre ((p # ps) @ t @ ss) = (lower_char lo pre p (ps @ t @ ss) @ a) @ t @ b"
    by simp
  then show ?case by blast
qed

lemma py_lower_keeps:
  assumes "\<forall>c\<in>set t. plain c" "py_in t s"
  shows "py_in t (py_lower lo s)"
proof -
  from assms(2) obtain ps ss where s: "s = ps @ t @ ss" by (auto simp: py_in_iff)
  from lower_from_keeps[OF assms(1), of lo "[]" ps ss] show ?thesis
    unfolding py_in_iff py_lower_def s by blast
qed

lemma normalise_keeps:
  assumes "t \<noteq> []" "\<forall>c\<in>set t. plain c \<and> \<not> is_space c" "py_in t text"
  shows "py_in t (normalise_message lo (Some text))"
proof -
  have "\<not> is_space (hd t)" "\<not> is_space (last t)" using assms(1,2) by auto
  then have "py_in t (py_strip text)" using assms py_strip_keeps by blast
  then show ?thesis using assms(2) by (simp add: normalise_message_def py_lower_keeps)
qed

text \<open>
  The same for a term that occurs in some ASCII letter case: \<open>strip\<close> removes the
  same code points from the text and from its folded form, and \<open>lower\<close> turns the
  occurrence into the term.
\<close>

lemma is_space_fold: "is_space (ascii_fold c) = is_space c"
proof (cases "65 \<le> c \<and> c \<le> 90")
  case True
  then have "\<not> is_space (c + 32)" "\<not> is_space c" by (auto simp: is_space_def)
  with True show ?thesis by (simp add: ascii_fold_def)
next
  case False
  then show ?thesis by (auto simp: ascii_fold_def)
qed

lemma dropWhile_fold:
  "dropWhile is_space (map ascii_fold s) = map ascii_fold (dropWhile is_space s)"
  by (induction s) (simp_all add: is_space_fold)

lemma py_strip_fold: "py_strip (map ascii_fold s) = map ascii_fold (py_strip s)"
  by (simp add: py_strip_def dropWhile_fold rev_map)

lemma lower_char_fold:
  "plain (ascii_fold c) \<Longrightarrow> lower_char lo pre c post = [ascii_fold c]"
  by (auto simp: lower_char_def ascii_fold_def plain_def)

lemma lower_from_fold:
  "\<forall>c\<in>set t. plain (ascii_fold c) \<Longrightarrow>
     lower_from lo pre (t @ ss) = map ascii_fold t @ lower_from lo (pre @ t) ss"
  by (induction t arbitrary: pre) (simp_all add: lower_char_fold)

lemma lower_from_keeps_fold:
  "\<forall>c\<in>set t. plain (ascii_fold c) \<Longrightarrow>
     \<exists>a b. lower_from lo pre (ps @ t @ ss) = a @ map ascii_fold t @ b"
proof (induction ps arbitrary: pre)
  case Nil
  then have "lower_from lo pre ([] @ t @ ss) = [] @ map ascii_fold t @ lower_from lo (pre @ t) ss"
    by (simp add: lower_from_fold)
  then show ?case by blast
next
  case (Cons p ps)
  from Cons.IH[OF Cons.prems, of "pre @ [p]"] obtain a b where
    "lower_from lo (pre @ [p]) (ps @ t @ ss) = a @ map ascii_fold t @ b" by blast
  then have "lower_from lo pre ((p # ps) @ t @ ss)
      = (lower_char lo pre p (ps @ t @ ss) @ a) @ map ascii_fold t @ b"
    by simp
  then show ?case by blast
qed

lemma py_lower_keeps_fold:
  assumes "\<forall>c\<in>set t. plain c" "py_in t (map ascii_fold s)"
  shows "py_in t (py_lower lo s)"
proof -
  from assms(2) obtain ps ss where e: "map ascii_fold s = ps @ t @ ss" by (auto simp: py_in_iff)
  then have "\<exists>us vs. s = us @ vs \<and> ps = map ascii_fold us \<and> t @ ss = map ascii_fold vs"
    by (simp add: map_eq_append_conv)
  then obtain ps' vs where r: "s = ps' @ vs" "t @ ss = map ascii_fold vs" by blast
  from r(2) have "\<exists>us ws. vs = us @ ws \<and> t = map ascii_fold us \<and> ss = map ascii_fold ws"
    by (simp add: append_eq_map_conv)
  then obtain t' ss' where v: "vs = t' @ ss'" and t: "map ascii_fold t' = t" by auto
  from r(1) v have s: "s = ps' @ t' @ ss'" by simp
  from assms(1) t have "\<forall>c\<in>set t'. plain (ascii_fold c)" by auto
  from lower_from_keeps_fold[OF this, of lo "[]" ps' ss'] show ?thesis
    unfolding py_in_iff py_lower_def s t by blast
qed

lemma normalise_keeps_fold:
  assumes "t \<noteq> []" "\<forall>c\<in>set t. plain c \<and> \<not> is_space c" "py_in t (map ascii_fold text)"
  shows "py_in t (normalise_message lo (Some text))"
proof -
  have "\<not> is_space (hd t)" "\<not> is_space (last t)" using assms(1,2) by auto
  then have "py_in t (py_strip (map ascii_fold text))" using assms py_strip_keeps by blast
  then have "py_in t (map ascii_fold (py_strip text))" by (simp add: py_strip_fold)
  then show ?thesis using assms(2) by (simp add: normalise_message_def py_lower_keeps_fold)
qed

lemma fold_plain: "\<forall>c\<in>set t. plain c \<Longrightarrow> map ascii_fold t = t"
  by (induction t) (auto simp: plain_def ascii_fold_def)

lemma py_in_fold:
  assumes "\<forall>c\<in>set t. plain c" "py_in t text"
  shows "py_in t (map ascii_fold text)"
proof -
  from assms(2) obtain ps ss where "text = ps @ t @ ss" by (auto simp: py_in_iff)
  then have "map ascii_fold text = map ascii_fold ps @ t @ map ascii_fold ss"
    using fold_plain[OF assms(1)] by simp
  then show ?thesis unfolding py_in_iff by blast
qed

section \<open>The rule passes\<close>

lemmas eval_defs = think_def think_rules_def think_fallback_def normalise_message_def
  py_lower_def py_strip_def is_space_def lower_char_def cps_def refused_topic_def insistent_def
  question_def py_endswith_def any_in_def greetings_def wellbeing_def thanks_def farewells_def
  capability_def cfg_off_def cfg_on_def ascii_lower_def Let_def

lemma mood_names_distinct:
  "cps ''good'' \<noteq> cps ''alert''" "cps ''good'' \<noteq> cps ''notice''" "cps ''good'' \<noteq> cps ''analyze''"
  "cps ''alert'' \<noteq> cps ''notice''" "cps ''alert'' \<noteq> cps ''analyze''"
  "cps ''notice'' \<noteq> cps ''analyze''" "cps ''analyze'' \<noteq> cps ''alert''"
  "cps ''analyze'' \<noteq> cps ''notice''" "cps ''notice'' \<noteq> cps ''alert''"
  by (simp_all add: cps_def)
lemma normalise_empty: "normalise_message lo None = []" "normalise_message lo (Some []) = []"
  by (simp_all add: normalise_message_def py_strip_def py_lower_def)

lemma rules_on_empty:
  "\<not> refused_topic []" "\<not> insistent []" "\<not> any_in greetings []" "\<not> any_in wellbeing []"
  "\<not> any_in thanks []" "\<not> any_in farewells []" "\<not> question []"
  by (simp_all add: refused_topic_def insistent_def any_in_def greetings_def wellbeing_def
      thanks_def farewells_def question_def py_endswith_def cps_def)
lemma plain_terms:
  "cps ''mineur'' \<noteq> [] \<and> (\<forall>c\<in>set (cps ''mineur''). plain c \<and> \<not> is_space c)"
  "cps ''sex'' \<noteq> [] \<and> (\<forall>c\<in>set (cps ''sex''). plain c \<and> \<not> is_space c)"
  "cps ''sexe'' \<noteq> [] \<and> (\<forall>c\<in>set (cps ''sexe''). plain c \<and> \<not> is_space c)"
  "cps ''explicit'' \<noteq> [] \<and> (\<forall>c\<in>set (cps ''explicit''). plain c \<and> \<not> is_space c)"
  "cps ''??'' \<noteq> [] \<and> (\<forall>c\<in>set (cps ''??''). plain c \<and> \<not> is_space c)"
  "cps ''?!'' \<noteq> [] \<and> (\<forall>c\<in>set (cps ''?!''). plain c \<and> \<not> is_space c)"
  by (simp_all add: cps_def plain_def is_space_def)

lemma refused_folded:
  assumes "py_in (cps ''mineur'') (map ascii_fold text)"
    and "py_in (cps ''sex'') (map ascii_fold text) \<or> py_in (cps ''sexe'') (map ascii_fold text)
       \<or> py_in (cps ''explicit'') (map ascii_fold text)"
  shows "refused_topic (normalise_message lo (Some text))"
  using assms plain_terms normalise_keeps_fold unfolding refused_topic_def by blast

lemma insistent_raw:
  assumes "py_in (cps ''??'') text \<or> py_in (cps ''?!'') text"
  shows "insistent (normalise_message lo (Some text))"
  using assms plain_terms normalise_keeps unfolding insistent_def by blast
lemma reply_texts_distinct:
  "txt_bonjour \<noteq> txt_compris" "txt_bonjour \<noteq> txt_concise"
  "txt_bien \<noteq> txt_compris" "txt_bien \<noteq> txt_concise"
  "txt_plaisir \<noteq> txt_compris" "txt_plaisir \<noteq> txt_concise"
  "txt_revoir \<noteq> txt_compris" "txt_revoir \<noteq> txt_concise"
  by (simp_all add: txt_bonjour_def txt_compris_def txt_concise_def txt_bien_def
      txt_plaisir_def txt_revoir_def cps_def)

lemma fallback_vs_rules:
  "think_fallback lo um = think_rules lo um \<longleftrightarrow>
     (if refused_topic (normalise_message lo um)
      then \<not> insistent (normalise_message lo um) \<and> \<not> question (normalise_message lo um)
      else insistent (normalise_message lo um) \<or>
           \<not> (any_in greetings (normalise_message lo um) \<or> any_in wellbeing (normalise_message lo um)
              \<or> any_in thanks (normalise_message lo um) \<or> any_in farewells (normalise_message lo um)))"
  using reply_texts_distinct
  by (auto simp: think_rules_def think_fallback_def Let_def)

lemma fallback_mood: "mood (think_fallback lo um) \<in> set moods"
  by (simp add: think_fallback_def Let_def moods_def)

lemma rules_mood: "mood (think_rules lo um) \<in> set moods"
  by (simp add: think_rules_def Let_def moods_def)

lemma normalize_non_object:
  "(\<forall>kvs. data \<noteq> JObj kvs) \<Longrightarrow> think_normalize rp data = Inl AttributeError"
  by (cases data) (simp_all add: think_normalize_def)

section \<open>Properties of the thinking engine\<close>

text \<open>
  C9. For every message, the decision of the single pass has \<open>alert\<close> true exactly when
  its mood is \<open>alert\<close> or \<open>notice\<close>, \<open>spark\<close> true exactly when its mood is \<open>analyze\<close> or
  \<open>notice\<close>, and no sources.
\<close>

theorem single_pass_flags:
  "alert (think_rules lo um) = (mood (think_rules lo um) \<in> {cps ''alert'', cps ''notice''})
   \<and> spark (think_rules lo um) = (mood (think_rules lo um) \<in> {cps ''analyze'', cps ''notice''})
   \<and> sources (think_rules lo um) = JArr []"
  by (simp add: think_rules_def Let_def mood_names_distinct)

text \<open>
  C10. Without a remote capability, \<open>think\<close> returns for the message \<open>None\<close> and for
  the empty message, and what it returns is the default decision: the reply
  \<open>Compris.\<close>, the mood \<open>good\<close>, no alert, no spark, no sources.
\<close>

theorem think_empty_message:
  assumes "\<not> capability cfg" and "um = None \<or> um = Some []"
  shows "think lo rp cfg rem um =
    Inr \<lparr>reply = txt_compris, mood = cps ''good'', alert = False, spark = False, sources = JArr []\<rparr>"
  using assms by (auto simp: think_def think_rules_def Let_def normalise_empty rules_on_empty)

theorem think_empty_message_witness:
  "\<not> capability cfg_off \<and> think ascii_lower no_repr cfg_off CallRaises None =
    Inr \<lparr>reply = txt_compris, mood = cps ''good'', alert = False, spark = False, sources = JArr []\<rparr>"
proof -
  have h: "\<not> capability cfg_off" by (simp add: capability_def cfg_off_def)
  show ?thesis using h think_empty_message[OF h, of None ascii_lower no_repr CallRaises] by simp
qed

text \<open>
  C5. A text that contains \<open>mineur\<close> and one of \<open>sex\<close>, \<open>sexe\<close>, \<open>explicit\<close>, each in
  any ASCII letter case, gets \<open>alert\<close> true and the mood \<open>alert\<close> from the single pass,
  whatever else it contains, \<open>??\<close> included.
\<close>

theorem refusal_dominates:
  assumes "py_in (cps ''mineur'') (map ascii_fold text)"
    and "py_in (cps ''sex'') (map ascii_fold text) \<or> py_in (cps ''sexe'') (map ascii_fold text)
       \<or> py_in (cps ''explicit'') (map ascii_fold text)"
  shows "alert (think_rules lo (Some text)) \<and> mood (think_rules lo (Some text)) = cps ''alert''"
  using refused_folded[OF assms] by (simp add: think_rules_def Let_def)

theorem refusal_dominates_witness:
  "py_in (cps ''mineur'') (map ascii_fold (cps ''  Mineur et SEXE ??''))
   \<and> py_in (cps ''sexe'') (map ascii_fold (cps ''  Mineur et SEXE ??''))
   \<and> py_in (cps ''??'') (cps ''  Mineur et SEXE ??'')
   \<and> alert (think_rules ascii_lower (Some (cps ''  Mineur et SEXE ??'')))
   \<and> mood (think_rules ascii_lower (Some (cps ''  Mineur et SEXE ??''))) = cps ''alert''"
proof -
  have a: "py_in (cps ''mineur'') (map ascii_fold (cps ''  Mineur et SEXE ??''))"
    by (simp add: cps_def ascii_fold_def)
  have b: "py_in (cps ''sexe'') (map ascii_fold (cps ''  Mineur et SEXE ??''))"
    by (simp add: cps_def ascii_fold_def)
  have c: "py_in (cps ''??'') (cps ''  Mineur et SEXE ??'')" by (simp add: cps_def)
  from b have b': "py_in (cps ''sex'') (map ascii_fold (cps ''  Mineur et SEXE ??''))
       \<or> py_in (cps ''sexe'') (map ascii_fold (cps ''  Mineur et SEXE ??''))
       \<or> py_in (cps ''explicit'') (map ascii_fold (cps ''  Mineur et SEXE ??''))" by simp
  show ?thesis using a b c refusal_dominates[OF a b', of ascii_lower] by simp
qed

text \<open>
  C6, as the code has it. A text that contains \<open>??\<close> or \<open>?!\<close> and that the refusal
  test does not match gets the mood \<open>notice\<close>, \<open>alert\<close> true and \<open>spark\<close> true from both
  passes, also when it ends with a single \<open>?\<close>. Where the refusal test matches, the
  mood is \<open>alert\<close> instead.
\<close>

theorem insistent_notice:
  assumes "py_in (cps ''??'') text \<or> py_in (cps ''?!'') text"
    and "\<not> refused_topic (normalise_message lo (Some text))"
  shows "mood (think_rules lo (Some text)) = cps ''notice''
       \<and> alert (think_rules lo (Some text)) \<and> spark (think_rules lo (Some text))
       \<and> mood (think_fallback lo (Some text)) = cps ''notice''
       \<and> alert (think_fallback lo (Some text)) \<and> spark (think_fallback lo (Some text))"
  using insistent_raw[OF assms(1)] assms(2)
  by (simp add: think_rules_def think_fallback_def Let_def)

theorem insistent_notice_witness:
  "py_in (cps ''?!'') (cps ''Es-tu sur ?! Vraiment ?'')
   \<and> \<not> refused_topic (normalise_message ascii_lower (Some (cps ''Es-tu sur ?! Vraiment ?'')))
   \<and> question (normalise_message ascii_lower (Some (cps ''Es-tu sur ?! Vraiment ?'')))
   \<and> mood (think_rules ascii_lower (Some (cps ''Es-tu sur ?! Vraiment ?''))) = cps ''notice''
   \<and> alert (think_rules ascii_lower (Some (cps ''Es-tu sur ?! Vraiment ?'')))
   \<and> spark (think_rules ascii_lower (Some (cps ''Es-tu sur ?! Vraiment ?'')))
   \<and> mood (think_fallback ascii_lower (Some (cps ''Es-tu sur ?! Vraiment ?''))) = cps ''notice''
   \<and> alert (think_fallback ascii_lower (Some (cps ''Es-tu sur ?! Vraiment ?'')))
   \<and> spark (think_fallback ascii_lower (Some (cps ''Es-tu sur ?! Vraiment ?'')))"
proof -
  have a: "py_in (cps ''?!'') (cps ''Es-tu sur ?! Vraiment ?'')" by (simp add: cps_def)
  then have a': "py_in (cps ''??'') (cps ''Es-tu sur ?! Vraiment ?'') \<or> py_in (cps ''?!'') (cps ''Es-tu sur ?! Vraiment ?'')" by blast
  have b: "\<not> refused_topic (normalise_message ascii_lower (Some (cps ''Es-tu sur ?! Vraiment ?'')))"
    by (simp add: eval_defs)
  have c: "question (normalise_message ascii_lower (Some (cps ''Es-tu sur ?! Vraiment ?'')))"
    by (simp add: eval_defs)
  show ?thesis using a b c insistent_notice[OF a' b] by blast
qed

theorem insistent_counterexample:
  "py_in (cps ''??'') (cps ''mineur sex ??'')
   \<and> mood (think_rules ascii_lower (Some (cps ''mineur sex ??''))) = cps ''alert''
   \<and> mood (think_rules ascii_lower (Some (cps ''mineur sex ??''))) \<noteq> cps ''notice''
   \<and> \<not> spark (think_rules ascii_lower (Some (cps ''mineur sex ??'')))
   \<and> mood (think_fallback ascii_lower (Some (cps ''mineur sex ??''))) \<noteq> cps ''notice''"
  by (simp add: eval_defs)

text \<open>
  C2, as the code has it. The pass of the exception handler and the single pass
  return the same tuple exactly on these messages: those the refusal test matches
  and that neither are insistent nor end with \<open>?\<close>, and those the refusal test does
  not match and that are insistent or match none of the four lexicons (greeting,
  well-being, thanks, farewell). On every other message the two tuples differ.
\<close>

theorem two_pass_vs_single_pass:
  assumes "capability cfg1" and "\<not> capability cfg0"
  shows "think lo rp cfg1 CallRaises um = think lo rp cfg0 rem um \<longleftrightarrow>
     (if refused_topic (normalise_message lo um)
      then \<not> insistent (normalise_message lo um) \<and> \<not> question (normalise_message lo um)
      else insistent (normalise_message lo um) \<or>
           \<not> (any_in greetings (normalise_message lo um) \<or> any_in wellbeing (normalise_message lo um)
              \<or> any_in thanks (normalise_message lo um) \<or> any_in farewells (normalise_message lo um)))"
  using assms fallback_vs_rules[of lo um] by (simp add: think_def)

theorem two_pass_vs_single_pass_witness:
  "capability cfg_on \<and> \<not> capability cfg_off
   \<and> \<not> refused_topic (normalise_message ascii_lower (Some (cps ''Quelle heure est-il ?'')))
   \<and> \<not> any_in greetings (normalise_message ascii_lower (Some (cps ''Quelle heure est-il ?'')))
   \<and> think ascii_lower no_repr cfg_on CallRaises (Some (cps ''Quelle heure est-il ?''))
     = think ascii_lower no_repr cfg_off (Parsed JNull) (Some (cps ''Quelle heure est-il ?''))"
proof -
  have a: "capability cfg_on" by (simp add: capability_def cfg_on_def cps_def)
  have b: "\<not> capability cfg_off" by (simp add: capability_def cfg_off_def)
  have c: "normalise_message ascii_lower (Some (cps ''Quelle heure est-il ?'')) = cps ''quelle heure est-il ?''"
    by (simp add: eval_defs)
  have d: "\<not> refused_topic (cps ''quelle heure est-il ?'')" "\<not> insistent (cps ''quelle heure est-il ?'')"
      "\<not> any_in greetings (cps ''quelle heure est-il ?'')" "\<not> any_in wellbeing (cps ''quelle heure est-il ?'')"
      "\<not> any_in thanks (cps ''quelle heure est-il ?'')" "\<not> any_in farewells (cps ''quelle heure est-il ?'')"
    by (simp_all add: eval_defs)
  show ?thesis
    using a b d two_pass_vs_single_pass[OF a b, of ascii_lower no_repr "Some (cps ''Quelle heure est-il ?'')" "Parsed JNull"]
    unfolding c by simp
qed

theorem two_pass_counterexample:
  "think ascii_lower no_repr cfg_on CallRaises (Some (cps ''Bonjour'')) =
     Inr \<lparr>reply = txt_compris, mood = cps ''good'', alert = False, spark = False, sources = JArr []\<rparr>
   \<and> think ascii_lower no_repr cfg_off CallRaises (Some (cps ''Bonjour'')) =
     Inr \<lparr>reply = txt_bonjour, mood = cps ''good'', alert = False, spark = False, sources = JArr []\<rparr>
   \<and> think ascii_lower no_repr cfg_on CallRaises (Some (cps ''Bonjour''))
     \<noteq> think ascii_lower no_repr cfg_off CallRaises (Some (cps ''Bonjour''))"
proof -
  have a: "think ascii_lower no_repr cfg_on CallRaises (Some (cps ''Bonjour'')) =
     Inr \<lparr>reply = txt_compris, mood = cps ''good'', alert = False, spark = False, sources = JArr []\<rparr>"
    by (simp add: eval_defs)
  have b: "think ascii_lower no_repr cfg_off CallRaises (Some (cps ''Bonjour'')) =
     Inr \<lparr>reply = txt_bonjour, mood = cps ''good'', alert = False, spark = False, sources = JArr []\<rparr>"
    by (simp add: eval_defs)
  show ?thesis unfolding a b using reply_texts_distinct by simp
qed

text \<open>
  C7, as the code has it. For a payload that is a dict the reading of the fields
  returns: the mood of the decision is one of the seven, a mood outside them becomes
  \<open>done\<close>, and a missing field takes its default. For a payload that is not a dict
  the first field access raises inside the \<open>try\<close>, and \<open>think\<close> returns the decision
  of the exception handler's rule pass, whose mood is one of the seven too.
\<close>

theorem normalize_object:
  assumes "capability cfg"
  shows "\<exists>d. think lo rp cfg (Parsed (JObj kvs)) um = Inr d
     \<and> think_normalize rp (JObj kvs) = Inr d
     \<and> mood d \<in> set moods
     \<and> (py_str rp (dict_get kvs (cps ''mood'') (JStr (cps ''done''))) \<in> set moods
          \<longrightarrow> mood d = py_str rp (dict_get kvs (cps ''mood'') (JStr (cps ''done''))))
     \<and> (py_str rp (dict_get kvs (cps ''mood'') (JStr (cps ''done''))) \<notin> set moods
          \<longrightarrow> mood d = cps ''done'')
     \<and> (map_of kvs (cps ''reply'') = None \<longrightarrow> reply d = txt_compris)
     \<and> (map_of kvs (cps ''mood'') = None \<longrightarrow> mood d = cps ''done'')
     \<and> (map_of kvs (cps ''alert'') = None \<longrightarrow> \<not> alert d)
     \<and> (map_of kvs (cps ''spark'') = None \<longrightarrow>
          spark d = (py_str rp (dict_get kvs (cps ''mood'') (JStr (cps ''done'')))
                      \<in> {cps ''analyze'', cps ''notice''}))
     \<and> (map_of kvs (cps ''sources'') = None \<longrightarrow> sources d = JArr [])
     \<and> (\<forall>data. (\<forall>kvs'. data \<noteq> JObj kvs') \<longrightarrow>
          think_normalize rp data = Inl AttributeError
          \<and> think lo rp cfg (Parsed data) um = Inr (think_fallback lo um)
          \<and> mood (think_fallback lo um) \<in> set moods)"
proof -
  have done_in: "cps ''done'' \<in> set moods" by (simp add: moods_def)
  have non: "\<forall>data. (\<forall>kvs'. data \<noteq> JObj kvs') \<longrightarrow>
          think_normalize rp data = Inl AttributeError
          \<and> think lo rp cfg (Parsed data) um = Inr (think_fallback lo um)
          \<and> mood (think_fallback lo um) \<in> set moods"
    using assms by (simp add: normalize_non_object think_def fallback_mood)
  show ?thesis
    using assms done_in non
    by (simp add: think_def think_normalize_def Let_def dict_get_def)
qed

theorem normalize_object_witness:
  "capability cfg_on
   \<and> think ascii_lower no_repr cfg_on (Parsed payload_partial) (Some (cps ''ok ??'')) =
       Inr \<lparr>reply = cps ''Salut'', mood = cps ''done'', alert = False, spark = False, sources = JArr []\<rparr>"
proof -
  have a: "capability cfg_on" by (simp add: capability_def cfg_on_def cps_def)
  have m: "map_of [(cps ''reply'', JStr (cps ''Salut'')), (cps ''mood'', JStr (cps ''happy''))] (cps ''mood'') = Some (JStr (cps ''happy''))"
      "map_of [(cps ''reply'', JStr (cps ''Salut'')), (cps ''mood'', JStr (cps ''happy''))] (cps ''reply'') = Some (JStr (cps ''Salut''))"
      "map_of [(cps ''reply'', JStr (cps ''Salut'')), (cps ''mood'', JStr (cps ''happy''))] (cps ''alert'') = None"
      "map_of [(cps ''reply'', JStr (cps ''Salut'')), (cps ''mood'', JStr (cps ''happy''))] (cps ''spark'') = None"
      "map_of [(cps ''reply'', JStr (cps ''Salut'')), (cps ''mood'', JStr (cps ''happy''))] (cps ''sources'') = None"
    by (simp_all add: cps_def)
  have h: "cps ''happy'' \<notin> set moods" "cps ''happy'' \<notin> {cps ''analyze'', cps ''notice''}"
    by (simp_all add: moods_def cps_def)
  from normalize_object[OF a, of ascii_lower no_repr
      "[(cps ''reply'', JStr (cps ''Salut'')), (cps ''mood'', JStr (cps ''happy''))]" "Some (cps ''ok ??'')"]
  obtain d where d: "think ascii_lower no_repr cfg_on (Parsed payload_partial) (Some (cps ''ok ??'')) = Inr d"
    "think_normalize no_repr payload_partial = Inr d"
    "mood d = cps ''done''" "\<not> alert d" "\<not> spark d" "sources d = JArr []"
    unfolding payload_partial_def using m h by (auto simp: dict_get_def)
  have r: "reply d = cps ''Salut''" using d(2) m
    by (auto simp: think_normalize_def payload_partial_def dict_get_def Let_def)
  have "d = \<lparr>reply = cps ''Salut'', mood = cps ''done'', alert = False, spark = False, sources = JArr []\<rparr>"
    using d r by simp
  then show ?thesis using a d(1) by simp
qed

theorem normalize_counterexample:
  "think_normalize no_repr (JArr []) = Inl AttributeError
   \<and> think ascii_lower no_repr cfg_on (Parsed (JArr [])) (Some (cps ''ok ??'')) =
       Inr \<lparr>reply = txt_insistante, mood = cps ''notice'', alert = True, spark = True, sources = JArr []\<rparr>"
  by (simp add: think_normalize_def eval_defs)

section \<open>Properties of the persistence layer\<close>

text \<open>The operations whose database part sits in a \<open>try\<close> always return.\<close>

lemma log_event_returns: "fst (log_event e now msg rep md al refused s) = Inr ()"
  by (simp add: log_event_def split: prod.splits bool.splits sum.splits)

lemma get_alerts_returns: "\<exists>rows. fst (get_alerts e limit s) = Inr rows"
  by (simp add: get_alerts_def split: prod.splits bool.splits sum.splits)

lemma get_alerts_count_returns: "\<exists>c. fst (get_alerts_count e s) = Inr c"
  by (simp add: get_alerts_count_def split: prod.splits bool.splits sum.splits)

lemma get_logs_returns: "\<exists>rows. fst (get_logs e limit s) = Inr rows"
  by (simp add: get_logs_def split: prod.splits bool.splits sum.splits)

lemma memory_unreachable_returns:
  "\<not> fst (db_ok e s) \<Longrightarrow> fst (memory_add e now r c s) = Inr () \<and> (\<exists>ts. fst (memory_fetch e limit s) = Inr ts)"
  by (auto simp: memory_add_def memory_fetch_def Let_def split: prod.splits bool.splits)

text \<open>
  C1. \<open>memory_fetch\<close> and \<open>memory_add\<close> let the exception of the database through to
  their caller: the first on a reachable database whose table \<open>memory\<close> does not exist
  yet, the second when the insert or the connection raises after a successful probe.
  \<open>log_event\<close> returns under the same kind of failure.
\<close>

theorem memory_facade_raises:
  "memory_fetch env_up 8 store0 = (Inl DBError, store0\<lparr>open_conns := 1\<rparr>)
   \<and> memory_add (env_fail InsertMemory) 0 (cps ''user'') (cps ''Bonjour'') store0
       = (Inl DBError, store0\<lparr>open_conns := 1\<rparr>)
   \<and> memory_add (env_fail Connect) 0 (cps ''user'') (cps ''Bonjour'') store0 = (Inl DBError, store0)
   \<and> fst (log_event (env_fail InsertLog) 0 (cps ''Bonjour'') txt_bonjour (cps ''good'') False False store0) = Inr ()"
  by (simp add: memory_fetch_def memory_add_def log_event_def log_event_db_def db_ok_def get_conn_def env_up_def env_fail_def
      store0_def)

text \<open>
  The database is not reachable when none is configured or when the probe raises.
  The call then appends to the module-level list and drops its head above 50.
\<close>

lemma memory_add_volatile:
  assumes "\<not> USE_DB e \<or> fails e ProbeConnect \<or> fails e ProbeClose"
  shows "fst (memory_add e now r c s) = Inr ()"
    and "memory_mem (snd (memory_add e now r c s)) =
      (if 50 < length (memory_mem s @ [\<lparr>role = r, content = c\<rparr>])
       then drop 1 (memory_mem s @ [\<lparr>role = r, content = c\<rparr>])
       else memory_mem s @ [\<lparr>role = r, content = c\<rparr>])"
  using assms by (auto simp: memory_add_def db_ok_def Let_def)

lemma memory_mem_bounded:
  "length (memory_mem s) \<le> 50 \<Longrightarrow> length (memory_mem (snd (memory_add e now r c s))) \<le> 50"
  by (auto simp: memory_add_def db_ok_def get_conn_def close_return_def Let_def)

lemma last50_step:
  assumes "length m \<le> 50"
  shows "drop (length ((if 50 < length (m @ [t]) then drop 1 (m @ [t]) else m @ [t]) @ ts) - 50)
           ((if 50 < length (m @ [t]) then drop 1 (m @ [t]) else m @ [t]) @ ts)
         = drop (length (m @ t # ts) - 50) (m @ t # ts)"
proof (cases "length m = 50")
  case True
  then obtain x xs where m: "m = x # xs" by (cases m) auto
  with True have l: "length xs = 49" by simp
  show ?thesis by (simp add: m l)
next
  case False
  with assms have "length m < 50" by simp
  then show ?thesis by simp
qed

lemma memory_add_all_volatile:
  assumes "\<not> USE_DB e \<or> fails e ProbeConnect \<or> fails e ProbeClose"
  shows "length (memory_mem s) \<le> 50 \<Longrightarrow>
    fst (memory_add_all e now ts s) = Inr () \<and>
    memory_mem (snd (memory_add_all e now ts s)) =
      drop (length (memory_mem s @ ts) - 50) (memory_mem s @ ts)"
proof (induction ts arbitrary: s)
  case Nil
  then show ?case by simp
next
  case (Cons t ts)
  let ?r = "memory_add e now (role t) (content t) s"
  let ?m' = "if 50 < length (memory_mem s @ [t]) then drop 1 (memory_mem s @ [t])
             else memory_mem s @ [t]"
  have t: "\<lparr>role = role t, content = content t\<rparr> = t" by simp
  have ok: "fst ?r = Inr ()" by (rule memory_add_volatile(1)[OF assms])
  have mem: "memory_mem (snd ?r) = ?m'"
    using memory_add_volatile(2)[OF assms, of now "role t" "content t" s] unfolding t .
  have len: "length (memory_mem (snd ?r)) \<le> 50" using Cons.prems by (auto simp: mem)
  from ok have step: "memory_add_all e now (t # ts) s = memory_add_all e now ts (snd ?r)"
    by (cases ?r) simp
  have "drop (length (?m' @ ts) - 50) (?m' @ ts)
      = drop (length (memory_mem s @ t # ts) - 50) (memory_mem s @ t # ts)"
    by (rule last50_step[OF Cons.prems])
  with Cons.IH[OF len] show ?case unfolding step mem by simp
qed

text \<open>
  C8. While the database is not reachable, a sequence of \<open>memory_add\<close> calls on a
  list of at most 50 turns returns and leaves at most 50 turns: the last 50 of the old
  list followed by the added turns, in their order. After 60 calls these are the last
  50 added turns.
\<close>

theorem volatile_memory_bound:
  assumes "\<not> USE_DB e \<or> fails e ProbeConnect \<or> fails e ProbeClose"
    and "length (memory_mem s) \<le> 50"
  shows "fst (memory_add_all e now ts s) = Inr ()
     \<and> length (memory_mem (snd (memory_add_all e now ts s))) \<le> 50
     \<and> memory_mem (snd (memory_add_all e now ts s))
         = drop (length (memory_mem s @ ts) - 50) (memory_mem s @ ts)
     \<and> (length ts = 60 \<longrightarrow> memory_mem (snd (memory_add_all e now ts s)) = drop 10 ts)"
  using assms(2) memory_add_all_volatile[OF assms, of now ts] by auto

theorem volatile_memory_bound_witness:
  "\<not> USE_DB env_down \<and> length (memory_mem store0) \<le> 50 \<and> length turns60 = 60
   \<and> fst (memory_add_all env_down 0 turns60 store0) = Inr ()
   \<and> memory_mem (snd (memory_add_all env_down 0 turns60 store0))
       = map (\<lambda>i. \<lparr>role = cps ''user'', content = [i]\<rparr>) [10..<60]"
proof -
  have a: "\<not> USE_DB env_down \<or> fails env_down ProbeConnect \<or> fails env_down ProbeClose"
    by (simp add: env_down_def)
  have b: "length (memory_mem store0) \<le> 50" by (simp add: store0_def)
  have c: "length turns60 = 60" by (simp add: turns60_def)
  have d: "drop 10 turns60 = map (\<lambda>i. \<lparr>role = cps ''user'', content = [i]\<rparr>) [10..<60]"
    by (simp add: turns60_def drop_map)
  show ?thesis using volatile_memory_bound[OF a b, of 0 turns60] a b c d
    by (simp add: env_down_def)
qed

lemma py_tail_newest: "0 < limit \<Longrightarrow> rev (py_tail xs limit) = take (nat limit) (rev xs)"
  by (simp add: py_tail_def take_rev)

lemma get_logs_db_ok:
  assumes "\<not> fails e Connect" "\<not> fails e Cursor" "\<not> fails e SelectLogs" "\<not> fails e Fetch"
    "\<not> fails e Close" "logs_tbl s = Some rows" "0 \<le> limit"
  shows "get_logs_db e limit s = (Inr (take (nat limit) (rev rows)), s)"
  using assms by (simp add: get_logs_db_def get_conn_def close_return_def select_desc_def)

lemma get_logs_db_raises:
  assumes "fails e Connect \<or> fails e Cursor \<or> fails e SelectLogs \<or> fails e Fetch
     \<or> fails e Close \<or> logs_tbl s = None"
  shows "\<exists>err s1. get_logs_db e limit s = (Inl err, s1) \<and> logs_mem s1 = logs_mem s"
  using assms
  by (auto simp: get_logs_db_def get_conn_def close_return_def select_desc_def
      split: option.splits sum.splits)

text \<open>
  C3, as the code has it. For a limit of at least 1 the listing of the logs returns
  the newest \<open>limit\<close> entries (all of them when there are fewer) with the newest
  first, from the table when every step of the database succeeds and from the
  module-level list otherwise.
\<close>

theorem logs_newest_first:
  assumes "0 < limit"
  shows "(fst (db_ok e s) \<and> \<not> fails e Connect \<and> \<not> fails e Cursor \<and> \<not> fails e SelectLogs
          \<and> \<not> fails e Fetch \<and> \<not> fails e Close \<and> logs_tbl s = Some rows
          \<longrightarrow> fst (get_logs e limit s) = Inr (take (nat limit) (rev rows)))
       \<and> (\<not> fst (db_ok e s) \<or> fails e Connect \<or> fails e Cursor \<or> fails e SelectLogs
          \<or> fails e Fetch \<or> fails e Close \<or> logs_tbl s = None
          \<longrightarrow> fst (get_logs e limit s) = Inr (take (nat limit) (rev (logs_mem s))))"
proof (intro conjI impI)
  assume a: "fst (db_ok e s) \<and> \<not> fails e Connect \<and> \<not> fails e Cursor \<and> \<not> fails e SelectLogs
          \<and> \<not> fails e Fetch \<and> \<not> fails e Close \<and> logs_tbl s = Some rows"
  then have ok: "db_ok e s = (True, s)" by (auto simp: db_ok_def split: if_splits)
  from a assms have "get_logs_db e limit s = (Inr (take (nat limit) (rev rows)), s)"
    by (simp add: get_logs_db_ok)
  then show "fst (get_logs e limit s) = Inr (take (nat limit) (rev rows))"
    by (simp add: get_logs_def ok)
next
  assume b: "\<not> fst (db_ok e s) \<or> fails e Connect \<or> fails e Cursor \<or> fails e SelectLogs
          \<or> fails e Fetch \<or> fails e Close \<or> logs_tbl s = None"
  show "fst (get_logs e limit s) = Inr (take (nat limit) (rev (logs_mem s)))"
  proof (cases "fst (db_ok e s)")
    case False
    then obtain s0 where ok: "db_ok e s = (False, s0)" "logs_mem s0 = logs_mem s"
      by (auto simp: db_ok_def split: if_splits)
    then show ?thesis using assms by (simp add: get_logs_def py_tail_newest)
  next
    case True
    then have ok: "db_ok e s = (True, s)" by (auto simp: db_ok_def split: if_splits)
    from True b have "fails e Connect \<or> fails e Cursor \<or> fails e SelectLogs \<or> fails e Fetch
       \<or> fails e Close \<or> logs_tbl s = None" by simp
    from get_logs_db_raises[OF this, of limit] obtain err s1 where
      "get_logs_db e limit s = (Inl err, s1)" "logs_mem s1 = logs_mem s" by blast
    then show ?thesis using assms by (simp add: get_logs_def ok py_tail_newest)
  qed
qed

theorem logs_newest_first_witness:
  "(0::int) < 2 \<and> fst (db_ok env_up store3) \<and> \<not> fst (db_ok env_down store3)
   \<and> fst (get_logs env_up 2 store3) = Inr [entry 3, entry 2]
   \<and> fst (get_logs env_down 2 store3) = Inr [entry 3, entry 2]"
proof -
  have l: "(0::int) < 2" by simp
  have up: "fst (db_ok env_up store3) \<and> \<not> fails env_up Connect \<and> \<not> fails env_up Cursor
     \<and> \<not> fails env_up SelectLogs \<and> \<not> fails env_up Fetch \<and> \<not> fails env_up Close
     \<and> logs_tbl store3 = Some [entry 1, entry 2, entry 3]"
    by (simp add: db_ok_def env_up_def store3_def store0_def)
  have down: "\<not> fst (db_ok env_down store3)" by (simp add: db_ok_def env_down_def)
  have m: "logs_mem store3 = [entry 1, entry 2, entry 3]" by (simp add: store3_def store0_def)
  have t: "take (nat 2) (rev [entry 1, entry 2, entry 3]) = [entry 3, entry 2]" by simp
  show ?thesis
    using logs_newest_first[OF l, of env_up store3 "[entry 1, entry 2, entry 3]"]
      logs_newest_first[OF l, of env_down store3 "[entry 1, entry 2, entry 3]"] up down
    unfolding m t by simp
qed

theorem logs_order_counterexample:
  "fst (get_logs env_down 2 store3) = Inr [entry 3, entry 2]
   \<and> fst (get_logs env_up 2 store3) = Inr [entry 3, entry 2]
   \<and> spec_list_logs [entry 1, entry 2, entry 3] 2 = [entry 2, entry 3]
   \<and> [entry 3, entry 2] \<noteq> [entry 2, entry 3]
   \<and> fst (get_logs env_down 0 store3) = Inr [entry 3, entry 2, entry 1]
   \<and> fst (get_logs env_up 0 store3) = Inr []"
  by (simp add: get_logs_def get_logs_db_def db_ok_def get_conn_def close_return_def select_desc_def
      py_tail_def env_down_def env_up_def store3_def store0_def spec_list_logs_def entry_def)

lemma db_ok_True: "fst (db_ok e s) \<Longrightarrow> db_ok e s = (True, s)"
  by (auto simp: db_ok_def split: if_splits)

lemma log_event_db_conns:
  "open_conns (snd (log_event_db e now msg rep md al refused s)) =
     (if isl (fst (log_event_db e now msg rep md al refused s)) \<and> \<not> fails e Connect
      then Suc (open_conns s) else open_conns s)"
  by (simp add: log_event_db_def get_conn_def close_return_def Let_def)

lemma memory_add_conns:
  "fst (db_ok e s) \<Longrightarrow> open_conns (snd (memory_add e now r c s)) =
     (if isl (fst (memory_add e now r c s)) \<and> \<not> fails e Connect
      then Suc (open_conns s) else open_conns s)"
  by (simp add: memory_add_def db_ok_True get_conn_def close_return_def Let_def)

lemma memory_fetch_conns:
  "fst (db_ok e s) \<Longrightarrow> open_conns (snd (memory_fetch e limit s)) =
     (if isl (fst (memory_fetch e limit s)) \<and> \<not> fails e Connect
      then Suc (open_conns s) else open_conns s)"
  by (simp add: memory_fetch_def db_ok_True get_conn_def close_return_def Let_def
      split: option.splits sum.splits)

lemma get_alerts_db_conns:
  "open_conns (snd (get_alerts_db e limit s)) =
     (if isl (fst (get_alerts_db e limit s)) \<and> \<not> fails e Connect
      then Suc (open_conns s) else open_conns s)"
  by (simp add: get_alerts_db_def get_conn_def close_return_def split: option.splits sum.splits)

lemma get_alerts_count_db_conns:
  "open_conns (snd (get_alerts_count_db e s)) =
     (if isl (fst (get_alerts_count_db e s)) \<and> \<not> fails e Connect
      then Suc (open_conns s) else open_conns s)"
  by (simp add: get_alerts_count_db_def get_conn_def close_return_def split: option.splits sum.splits)

lemma get_logs_db_conns:
  "open_conns (snd (get_logs_db e limit s)) =
     (if isl (fst (get_logs_db e limit s)) \<and> \<not> fails e Connect
      then Suc (open_conns s) else open_conns s)"
  by (simp add: get_logs_db_def get_conn_def close_return_def split: option.splits sum.splits)

text \<open>
  C4, as the code has it. An operation that opened a connection closes it on the
  path where every step succeeds. On a path where a later step raises, the operation
  ends with the connection still open.
\<close>

theorem connection_release:
  assumes "fst (db_ok e s)"
  shows "open_conns (snd (log_event_db e now msg rep md al refused s)) =
           (if isl (fst (log_event_db e now msg rep md al refused s)) \<and> \<not> fails e Connect
            then Suc (open_conns s) else open_conns s)
     \<and> open_conns (snd (memory_add e now r c s)) =
           (if isl (fst (memory_add e now r c s)) \<and> \<not> fails e Connect
            then Suc (open_conns s) else open_conns s)
     \<and> open_conns (snd (memory_fetch e limit s)) =
           (if isl (fst (memory_fetch e limit s)) \<and> \<not> fails e Connect
            then Suc (open_conns s) else open_conns s)
     \<and> open_conns (snd (get_alerts_db e limit s)) =
           (if isl (fst (get_alerts_db e limit s)) \<and> \<not> fails e Connect
            then Suc (open_conns s) else open_conns s)
     \<and> open_conns (snd (get_alerts_count_db e s)) =
           (if isl (fst (get_alerts_count_db e s)) \<and> \<not> fails e Connect
            then Suc (open_conns s) else open_conns s)
     \<and> open_conns (snd (get_logs_db e limit s)) =
           (if isl (fst (get_logs_db e limit s)) \<and> \<not> fails e Connect
            then Suc (open_conns s) else open_conns s)"
  using assms log_event_db_conns memory_add_conns memory_fetch_conns get_alerts_db_conns
    get_alerts_count_db_conns get_logs_db_conns by presburger

theorem connection_release_witness:
  "fst (db_ok env_up store0)
   \<and> fst (log_event_db env_up 0 (cps ''ok'') txt_compris (cps ''good'') False False store0) = Inr ()
   \<and> open_conns (snd (log_event_db env_up 0 (cps ''ok'') txt_compris (cps ''good'') False False store0)) = 0
   \<and> fst (memory_fetch env_up 8 store0) = Inl DBError
   \<and> open_conns (snd (memory_fetch env_up 8 store0)) = 1"
proof -
  have a: "fst (db_ok env_up store0)" by (simp add: db_ok_def env_up_def)
  have b: "fst (log_event_db env_up 0 (cps ''ok'') txt_compris (cps ''good'') False False store0) = Inr ()"
    by (simp add: log_event_db_def get_conn_def close_return_def env_up_def store0_def)
  have c: "fst (memory_fetch env_up 8 store0) = Inl DBError"
    by (simp add: memory_fetch_def db_ok_def get_conn_def env_up_def store0_def)
  have d: "\<not> fails env_up Connect" "open_conns store0 = 0" by (simp_all add: env_up_def store0_def)
  show ?thesis
    using connection_release[OF a, of 0 "cps ''ok''" txt_compris "cps ''good''" False False
        "cps ''user''" "cps ''ok''" 8] a d
    unfolding b c by simp
qed

theorem connection_leak_counterexample:
  "log_event_db (env_fail InsertLog) 0 (cps ''ok'') txt_compris (cps ''good'') False False store0
     = (Inl DBError, store0\<lparr>open_conns := 1\<rparr>)
   \<and> open_conns (store0\<lparr>open_conns := 1\<rparr>) \<noteq> open_conns store0"
  by (simp add: log_event_db_def get_conn_def env_fail_def store0_def)

end
